theory Spec2Isabelle
  imports Complex_Main "HOL-Library.AList"
begin

section \<open>Strings as the source uses them\<close>

text \<open>
  Strings are lists of 8-bit code units. \<open>String.prototype.trim\<close> strips white space
  from both ends; among the code units below 256 these are tab, line feed, vertical tab,
  form feed, carriage return, space and the no-break space.
\<close>

definition is_space :: "char \<Rightarrow> bool" where
  "is_space c = (of_char c \<in> {9::nat, 10, 11, 12, 13, 32, 160})"

definition trim :: "string \<Rightarrow> string" where
  "trim s = rev (dropWhile is_space (rev (dropWhile is_space s)))"

text \<open>
  The guard \<^verbatim>\<open>!text || text.trim().length === 0\<close> that the source reports as
  "cannot be empty": a string is empty for the program when nothing is left of it after
  trimming.
\<close>

definition is_empty :: "string \<Rightarrow> bool" where
  "is_empty s = (s = [] \<or> length (trim s) = 0)"

text \<open>\<open>toLowerCase\<close> on the code units below 256: A-Z and the Latin-1 capitals.\<close>

definition lower_char :: "char \<Rightarrow> char" where
  "lower_char c =
     (let n = (of_char c :: nat)
      in if (65 \<le> n \<and> n \<le> 90) \<or> (192 \<le> n \<and> n \<le> 222 \<and> n \<noteq> 215)
         then char_of (n + 32) else c)"

definition toLowerCase :: "string \<Rightarrow> string" where
  "toLowerCase s = map lower_char s"

text \<open>\<open>s.includes(t)\<close>: \<open>t\<close> occurs in \<open>s\<close> as a contiguous block.\<close>

fun startsWith :: "string \<Rightarrow> string \<Rightarrow> bool" where
  "startsWith s [] = True"
| "startsWith [] (c # cs) = False"
| "startsWith (d # ds) (c # cs) = (d = c \<and> startsWith ds cs)"

fun includes_str :: "string \<Rightarrow> string \<Rightarrow> bool" where
  "includes_str [] t = (t = [])"
| "includes_str (c # cs) t = (startsWith (c # cs) t \<or> includes_str cs t)"

section \<open>Long-term memory: the graph of nodes\<close>

record metadata =
  createdAt :: string
  lastAccessed :: string
  accessCount :: int

record node =
  node_id :: string
  node_text :: string
  associations :: "string list"
  metadata :: metadata

text \<open>
  \<open>LongTermMemory\<close> holds a \<open>Map\<close> from ids to nodes and the dirty flag. A JavaScript
  \<open>Map\<close> iterates in insertion order, and \<open>search\<close> depends on that order, so the
  map is an association list with distinct keys: \<open>Map.set\<close> is \<^const>\<open>AList.update\<close>
  (in place for a known key, at the end for a new one), \<open>Map.delete\<close> is
  \<^const>\<open>AList.delete\<close>, \<open>Map.get\<close> is \<^const>\<open>map_of\<close>.
\<close>

record ltm =
  nodes :: "(string \<times> node) list"
  isDirty :: bool

datatype error =
    EmptyText
  | AssocNotFound string
  | MemoryNotFound string
  | EmptyKeyword
  | EmptyGoal
  | ChainNotFound string
  | NotActive
  | EmptyThought
  | BadConfidence
  | ParentNotFound string
  | ThoughtNotFound string
  | ParentChainNotFound
  | EmptyConclusion
  | NotPaused
  | StorageLocked
  | SaveFailed

definition has :: "(string \<times> node) list \<Rightarrow> string \<Rightarrow> bool" where
  "has ns k = (map_of ns k \<noteq> None)"

text \<open>
  The validation loop of \<open>add\<close> and \<open>update\<close>: the first association id that is not a
  key of the map, if there is one.
\<close>

fun first_unknown :: "(string \<times> node) list \<Rightarrow> string list \<Rightarrow> string option" where
  "first_unknown ns [] = None"
| "first_unknown ns (a # as) = (if \<not> has ns a then Some a else first_unknown ns as)"

text \<open>
  \<open>add(text, associations)\<close>. The id drawn from \<open>uuidv4()\<close> and the time stamp are
  parameters. Every operation returns its result together with the state it leaves.
\<close>

definition add :: "string \<Rightarrow> string \<Rightarrow> string \<Rightarrow> string list \<Rightarrow> ltm \<Rightarrow> (error + string) \<times> ltm" where
  "add uuid now text assocs m =
     (if is_empty text then (Inl EmptyText, m)
      else case first_unknown (nodes m) assocs of
        Some a \<Rightarrow> (Inl (AssocNotFound a), m)
      | None \<Rightarrow>
          (Inr uuid,
           m\<lparr>nodes := AList.update uuid
                \<lparr>node_id = uuid, node_text = trim text, associations = assocs,
                 metadata = \<lparr>createdAt = now, lastAccessed = now, accessCount = 0\<rparr>\<rparr>
                (nodes m),
             isDirty := True\<rparr>))"

text \<open>
  \<open>getAssociatedNodes\<close>: the recursive closure \<open>traverse\<close> with its captured
  \<open>visited\<close> set and \<open>result\<close> array threaded through as a pair.
\<close>

function traverse ::
  "(string \<times> node) list \<Rightarrow> string \<Rightarrow> int \<Rightarrow> string \<Rightarrow> int \<Rightarrow> string list \<times> node list
     \<Rightarrow> string list \<times> node list" where
  "traverse ns rootId depth currentId currentDepth (visited, result) =
     (if currentDepth > depth \<or> currentId \<in> set visited then (visited, result)
      else case map_of ns currentId of
        None \<Rightarrow> (currentId # visited, result)
      | Some n \<Rightarrow>
          fold (\<lambda>assocId st. traverse ns rootId depth assocId (currentDepth + 1) st)
            (associations n)
            (currentId # visited, if currentId \<noteq> rootId then result @ [n] else result))"
  by pat_completeness auto
termination
  by (relation "measure (\<lambda>(ns, rootId, depth, currentId, currentDepth, st). nat (depth + 1 - currentDepth))")
     auto

definition getAssociatedNodes :: "(string \<times> node) list \<Rightarrow> string \<Rightarrow> int \<Rightarrow> node list" where
  "getAssociatedNodes ns i depth = snd (traverse ns i depth i 0 ([], []))"

text \<open>
  \<open>get(id, options)\<close>: \<open>options.depth\<close> is optional and defaults to 1; the depth used
  is \<open>Math.min(depth, 3)\<close>. The access metadata of the target is bumped before the
  traversal runs.
\<close>

definition touch :: "string \<Rightarrow> node \<Rightarrow> node" where
  "touch now n =
     n\<lparr>metadata := (metadata n)\<lparr>lastAccessed := now, accessCount := accessCount (metadata n) + 1\<rparr>\<rparr>"

definition get :: "string \<Rightarrow> string \<Rightarrow> int option \<Rightarrow> ltm \<Rightarrow> (error + node \<times> node list) \<times> ltm" where
  "get now i depth_opt m =
     (case map_of (nodes m) i of
        None \<Rightarrow> (Inl (MemoryNotFound i), m)
      | Some n \<Rightarrow>
          (let ns' = AList.update i (touch now n) (nodes m);
               depth = min (case depth_opt of None \<Rightarrow> 1 | Some d \<Rightarrow> d) 3
           in (Inr (touch now n, getAssociatedNodes ns' i depth),
               m\<lparr>nodes := ns', isDirty := True\<rparr>)))"

text \<open>
  \<open>search(keyword, options)\<close>: the loop over \<open>nodes.values()\<close> pushes a match and
  only then compares the number of results with the limit.
\<close>

fun search_loop :: "string \<Rightarrow> bool \<Rightarrow> int \<Rightarrow> (string \<times> node) list \<Rightarrow> (string \<times> string) list
    \<Rightarrow> (string \<times> string) list" where
  "search_loop searchTerm caseSensitive limit [] results = results"
| "search_loop searchTerm caseSensitive limit ((k, n) # rest) results =
     (let text = (if caseSensitive then node_text n else toLowerCase (node_text n))
      in if includes_str text searchTerm
         then (let results' = results @ [(node_id n, node_text n)]
               in if int (length results') \<ge> limit then results'
                  else search_loop searchTerm caseSensitive limit rest results')
         else search_loop searchTerm caseSensitive limit rest results)"

definition search :: "string \<Rightarrow> int option \<Rightarrow> bool option \<Rightarrow> ltm \<Rightarrow> (error + (string \<times> string) list) \<times> ltm" where
  "search keyword limit_opt cs_opt m =
     (if is_empty keyword then (Inl EmptyKeyword, m)
      else
        (let limit = (case limit_opt of None \<Rightarrow> 10 | Some l \<Rightarrow> l);
             caseSensitive = (case cs_opt of None \<Rightarrow> False | Some b \<Rightarrow> b);
             searchTerm = (if caseSensitive then keyword else toLowerCase keyword)
         in (Inr (search_loop searchTerm caseSensitive limit (nodes m) []), m)))"

text \<open>
  \<open>update(id, newText?, newAssociations?)\<close>: the text is written before the new
  associations are validated.
\<close>

definition update :: "string \<Rightarrow> string \<Rightarrow> string option \<Rightarrow> string list option \<Rightarrow> ltm \<Rightarrow> (error + unit) \<times> ltm" where
  "update now i newText newAssociations m =
     (case map_of (nodes m) i of
        None \<Rightarrow> (Inl (MemoryNotFound i), m)
      | Some n \<Rightarrow>
          (case (case newText of
                   None \<Rightarrow> Inr n
                 | Some t \<Rightarrow> if length (trim t) = 0 then Inl EmptyText
                             else Inr (n\<lparr>node_text := trim t\<rparr>)) of
             Inl e \<Rightarrow> (Inl e, m)
           | Inr n1 \<Rightarrow>
               (let ns1 = AList.update i n1 (nodes m) in
                case (case newAssociations of
                        None \<Rightarrow> Inr n1
                      | Some as \<Rightarrow>
                          (case first_unknown ns1 as of
                             Some a \<Rightarrow> Inl (AssocNotFound a)
                           | None \<Rightarrow> Inr (n1\<lparr>associations := as\<rparr>))) of
                  Inl e \<Rightarrow> (Inl e, m\<lparr>nodes := ns1\<rparr>)
                | Inr n2 \<Rightarrow>
                    (Inr (),
                     m\<lparr>nodes := AList.update i
                          (n2\<lparr>metadata := (metadata n2)\<lparr>lastAccessed := now\<rparr>\<rparr>) (nodes m),
                       isDirty := True\<rparr>))))"

text \<open>
  \<open>delete(id)\<close>: for every node, \<open>indexOf\<close> finds the first occurrence of the id in
  its associations and \<open>splice(index, 1)\<close> removes that one element, which is
  \<^const>\<open>remove1\<close>; then the entry itself is deleted.
\<close>

definition strip_assoc :: "string \<Rightarrow> node \<Rightarrow> node" where
  "strip_assoc i n = n\<lparr>associations := remove1 i (associations n)\<rparr>"

definition delete :: "string \<Rightarrow> ltm \<Rightarrow> (error + unit) \<times> ltm" where
  "delete i m =
     (if \<not> has (nodes m) i then (Inl (MemoryNotFound i), m)
      else (Inr (),
            m\<lparr>nodes := AList.delete i (map (\<lambda>(k, n). (k, strip_assoc i n)) (nodes m)),
              isDirty := True\<rparr>))"

definition getAssociations :: "string \<Rightarrow> ltm \<Rightarrow> (error + string list) \<times> ltm" where
  "getAssociations i m =
     (case map_of (nodes m) i of
        None \<Rightarrow> (Inl (MemoryNotFound i), m)
      | Some n \<Rightarrow> (Inr (associations n), m))"

definition getAllNodes :: "ltm \<Rightarrow> (string \<times> node) list" where
  "getAllNodes m = nodes m"

text \<open>
  \<open>loadNodes(record)\<close>: the map is cleared and refilled from the entries of the
  record, given here in the order \<open>Object.entries\<close> lists them.
\<close>

definition loadNodes :: "(string \<times> node) list \<Rightarrow> ltm \<Rightarrow> (error + unit) \<times> ltm" where
  "loadNodes entries m =
     (Inr (), m\<lparr>nodes := fold (\<lambda>(k, n) ns. AList.update k n ns) entries [], isDirty := False\<rparr>)"

definition getCount :: "ltm \<Rightarrow> nat" where
  "getCount m = length (nodes m)"

definition checkIsDirty :: "ltm \<Rightarrow> bool" where
  "checkIsDirty m = isDirty m"

definition markClean :: "ltm \<Rightarrow> ltm" where
  "markClean m = m\<lparr>isDirty := False\<rparr>"

definition getTotalAssociations :: "ltm \<Rightarrow> nat" where
  "getTotalAssociations m = sum_list (map (\<lambda>(k, n). length (associations n)) (nodes m))"

section \<open>The thinking process: chains and thoughts\<close>

datatype thought_type = observation | analysis | decision | action | reflection | hypothesis

datatype thought_status = thought_active | thought_completed | thought_discarded | thought_pending

datatype chain_status = chain_active | chain_completed | chain_paused

datatype cognitive_mode = analytical | intuitive | creative | critical | meta_cognitive

datatype complexity = low | medium | high

record thought_metadata =
  thinking_time :: "int option"
  complexity :: "complexity option"
  emotional_tone :: "string option"

record thought_node = node +
  thought_type :: thought_type
  confidence :: real
  status :: thought_status
  parent_chain :: string
  previous_thought :: "string option"
  next_thoughts :: "string list"
  reasoning_depth :: int
  thought_metadata :: thought_metadata

record thought_chain =
  chain_id :: string
  goal :: string
  chain_context :: "string option"
  created_at :: string
  completed_at :: "string option"
  chain_status :: chain_status
  thoughts :: "string list"
  branches :: "string list"
  cognitive_mode :: cognitive_mode

text \<open>
  \<open>ThinkingProcess\<close>: the two maps, the long-term memory it writes conclusions to, and
  the current mode. Chains and thoughts are objects shared through the maps; the model
  writes every change of an object back under its key.
\<close>

record thinking_process =
  chains :: "string \<rightharpoonup> thought_chain"
  thought_map :: "string \<rightharpoonup> thought_node"
  longTermMemory :: ltm
  currentMode :: cognitive_mode

text \<open>An optional string argument counts as given when it is present and not \<open>""\<close>.\<close>

fun truthy :: "string option \<Rightarrow> bool" where
  "truthy None = False"
| "truthy (Some s) = (s \<noteq> [])"

definition startThoughtProcess ::
  "string \<Rightarrow> string \<Rightarrow> string \<Rightarrow> string option \<Rightarrow> thinking_process \<Rightarrow> (error + string) \<times> thinking_process" where
  "startThoughtProcess uuid now g ctx s =
     (if is_empty g then (Inl EmptyGoal, s)
      else (Inr uuid,
            s\<lparr>chains := (chains s)(uuid \<mapsto>
                 \<lparr>chain_id = uuid, goal = trim g, chain_context = map_option trim ctx,
                  created_at = now, completed_at = None, chain_status = chain_active,
                  thoughts = [], branches = [], cognitive_mode = currentMode s\<rparr>)\<rparr>))"

definition addThought ::
  "string \<Rightarrow> string \<Rightarrow> string \<Rightarrow> string \<Rightarrow> thought_type \<Rightarrow> string option \<Rightarrow> real \<Rightarrow> thinking_process
     \<Rightarrow> (error + string) \<times> thinking_process" where
  "addThought uuid now chainId thought ty parentThoughtId conf s =
     (case chains s chainId of
        None \<Rightarrow> (Inl (ChainNotFound chainId), s)
      | Some chain \<Rightarrow>
          if chain_status chain \<noteq> chain_active then (Inl NotActive, s)
          else if is_empty thought then (Inl EmptyThought, s)
          else if conf < 0 \<or> conf > 1 then (Inl BadConfidence, s)
          else if truthy parentThoughtId \<and> thought_map s (the parentThoughtId) = None
            then (Inl (ParentNotFound (the parentThoughtId)), s)
          else
            (let thoughtNode =
                   \<lparr>node_id = uuid, node_text = trim thought, associations = [],
                    metadata = \<lparr>createdAt = now, lastAccessed = now, accessCount = 0\<rparr>,
                    thought_type = ty, confidence = conf, status = thought_active,
                    parent_chain = chainId, previous_thought = parentThoughtId,
                    next_thoughts = [],
                    reasoning_depth =
                      (if truthy parentThoughtId
                       then (case thought_map s (the parentThoughtId) of
                               None \<Rightarrow> 0 | Some p \<Rightarrow> reasoning_depth p) + 1
                       else 0),
                    thought_metadata =
                      \<lparr>thinking_time = Some 0, complexity = Some medium, emotional_tone = None\<rparr>\<rparr>;
                 tm1 = (if truthy parentThoughtId
                        then (case thought_map s (the parentThoughtId) of
                                None \<Rightarrow> thought_map s
                              | Some p \<Rightarrow> (thought_map s)(the parentThoughtId \<mapsto>
                                           p\<lparr>next_thoughts := next_thoughts p @ [uuid]\<rparr>))
                        else thought_map s)
             in (Inr uuid,
                 s\<lparr>thought_map := tm1(uuid \<mapsto> thoughtNode),
                   chains := (chains s)(chainId \<mapsto> chain\<lparr>thoughts := thoughts chain @ [uuid]\<rparr>)\<rparr>)))"

text \<open>
  \<open>branchThought\<close> draws one id for the branch chain and, inside \<open>addThought\<close>, one
  for the thought. The branch chain is stored and registered with the source chain
  before \<open>addThought\<close> validates the text and the confidence.
\<close>

definition branchThought ::
  "string \<Rightarrow> string \<Rightarrow> string \<Rightarrow> string \<Rightarrow> string \<Rightarrow> thought_type \<Rightarrow> real \<Rightarrow> thinking_process
     \<Rightarrow> (error + string) \<times> thinking_process" where
  "branchThought branchChainId uuid now thoughtId newThought ty conf s =
     (case thought_map s thoughtId of
        None \<Rightarrow> (Inl (ThoughtNotFound thoughtId), s)
      | Some originalThought \<Rightarrow>
          (case chains s (parent_chain originalThought) of
             None \<Rightarrow> (Inl ParentChainNotFound, s)
           | Some chain \<Rightarrow>
               (let branchChain =
                      \<lparr>chain_id = branchChainId,
                       goal = ''Branch from: '' @ take 50 (node_text originalThought) @ ''...'',
                       chain_context = Some (goal chain), created_at = now, completed_at = None,
                       chain_status = chain_active, thoughts = [], branches = [],
                       cognitive_mode = currentMode s\<rparr>;
                    cs1 = (chains s)(branchChainId \<mapsto> branchChain);
                    cs2 = (if branchChainId = parent_chain originalThought then cs1
                           else cs1(parent_chain originalThought \<mapsto>
                                  chain\<lparr>branches := branches chain @ [branchChainId]\<rparr>))
                in addThought uuid now branchChainId newThought ty None conf (s\<lparr>chains := cs2\<rparr>))))"

definition evaluateThought ::
  "string \<Rightarrow> string \<Rightarrow> real \<Rightarrow> string \<Rightarrow> thinking_process \<Rightarrow> (error + unit) \<times> thinking_process" where
  "evaluateThought now thoughtId conf reasoning s =
     (case thought_map s thoughtId of
        None \<Rightarrow> (Inl (ThoughtNotFound thoughtId), s)
      | Some thought \<Rightarrow>
          if conf < 0 \<or> conf > 1 then (Inl BadConfidence, s)
          else
            (let t1 = thought\<lparr>confidence := conf,
                        metadata := (metadata thought)\<lparr>lastAccessed := now,
                          accessCount := accessCount (metadata thought) + 1\<rparr>\<rparr>;
                 t2 = (if reasoning \<noteq> []
                       then t1\<lparr>associations := associations t1 @ [''reasoning:'' @ reasoning]\<rparr>
                       else t1)
             in (Inr (), s\<lparr>thought_map := (thought_map s)(thoughtId \<mapsto> t2)\<rparr>)))"

text \<open>The loop of \<open>completeThoughtProcess\<close> over the chain's thought ids.\<close>

definition complete_thought :: "string \<Rightarrow> (string \<rightharpoonup> thought_node) \<Rightarrow> (string \<rightharpoonup> thought_node)" where
  "complete_thought thoughtId tm =
     (case tm thoughtId of
        None \<Rightarrow> tm
      | Some thought \<Rightarrow>
          if status thought = thought_active
          then tm(thoughtId \<mapsto> thought\<lparr>status := thought_completed\<rparr>) else tm)"

text \<open>The summary text and the association strings the completed chain is stored with.\<close>

definition memoryText :: "string \<Rightarrow> string \<Rightarrow> string" where
  "memoryText g conclusion = ''[Thought Chain] '' @ g @ [CHR 0x0A] @ ''Conclusion: '' @ conclusion"

definition thought_ref :: "string \<Rightarrow> string" where
  "thought_ref i = ''thought:'' @ i"

definition completeThoughtProcess ::
  "string \<Rightarrow> string \<Rightarrow> string \<Rightarrow> string \<Rightarrow> string \<Rightarrow> thinking_process \<Rightarrow> (error + unit) \<times> thinking_process" where
  "completeThoughtProcess uuid now now_add chainId conclusion s =
     (case chains s chainId of
        None \<Rightarrow> (Inl (ChainNotFound chainId), s)
      | Some chain \<Rightarrow>
          if is_empty conclusion then (Inl EmptyConclusion, s)
          else
            (let chain' = chain\<lparr>chain_status := chain_completed, completed_at := Some now\<rparr>;
                 tm' = fold complete_thought (thoughts chain) (thought_map s);
                 thoughtIds = map thought_ref (thoughts chain)
             in (Inr (),
                 s\<lparr>chains := (chains s)(chainId \<mapsto> chain'),
                   thought_map := tm',
                   longTermMemory :=
                     snd (add uuid now_add (memoryText (goal chain) conclusion) thoughtIds
                            (longTermMemory s))\<rparr>)))"

definition pauseThinking :: "string \<Rightarrow> string \<Rightarrow> thinking_process \<Rightarrow> (error + unit) \<times> thinking_process" where
  "pauseThinking chainId reason s =
     (case chains s chainId of
        None \<Rightarrow> (Inl (ChainNotFound chainId), s)
      | Some chain \<Rightarrow>
          (Inr (),
           s\<lparr>chains := (chains s)(chainId \<mapsto>
                chain\<lparr>chain_status := chain_paused,
                      chain_context := Some ((case chain_context chain of None \<Rightarrow> [] | Some c \<Rightarrow> c)
                                       @ [CHR 0x0A] @ ''[Paused: '' @ reason @ '']'')\<rparr>)\<rparr>))"

definition resumeThinking :: "string \<Rightarrow> thinking_process \<Rightarrow> (error + unit) \<times> thinking_process" where
  "resumeThinking chainId s =
     (case chains s chainId of
        None \<Rightarrow> (Inl (ChainNotFound chainId), s)
      | Some chain \<Rightarrow>
          if chain_status chain \<noteq> chain_paused then (Inl NotPaused, s)
          else (Inr (), s\<lparr>chains := (chains s)(chainId \<mapsto> chain\<lparr>chain_status := chain_active\<rparr>)\<rparr>))"

definition switchCognitiveMode ::
  "cognitive_mode \<Rightarrow> string option \<Rightarrow> thinking_process \<Rightarrow> (error + unit) \<times> thinking_process" where
  "switchCognitiveMode mode chainId s =
     (let s1 = s\<lparr>currentMode := mode\<rparr>
      in if truthy chainId
         then (case chains s1 (the chainId) of
                 None \<Rightarrow> (Inl (ChainNotFound (the chainId)), s1)
               | Some chain \<Rightarrow>
                   (Inr (), s1\<lparr>chains := (chains s1)(the chainId \<mapsto> chain\<lparr>cognitive_mode := mode\<rparr>)\<rparr>))
         else (Inr (), s1))"

text \<open>
  The calls that write to a \<open>ThinkingProcess\<close>, each with the ids and time stamps it
  draws, and the state one call leaves. The remaining methods only read the maps.
\<close>

datatype tp_call =
    StartThoughtProcess string string string "string option"
  | AddThought string string string string thought_type "string option" real
  | BranchThought string string string string string thought_type real
  | EvaluateThought string string real string
  | CompleteThoughtProcess string string string string string
  | PauseThinking string string
  | ResumeThinking string
  | SwitchCognitiveMode cognitive_mode "string option"

fun run_call :: "tp_call \<Rightarrow> thinking_process \<Rightarrow> thinking_process" where
  "run_call (StartThoughtProcess uuid now g ctx) s = snd (startThoughtProcess uuid now g ctx s)"
| "run_call (AddThought uuid now c t ty p conf) s = snd (addThought uuid now c t ty p conf s)"
| "run_call (BranchThought b uuid now t txt ty conf) s = snd (branchThought b uuid now t txt ty conf s)"
| "run_call (EvaluateThought now t conf r) s = snd (evaluateThought now t conf r s)"
| "run_call (CompleteThoughtProcess uuid now now_add c concl) s =
     snd (completeThoughtProcess uuid now now_add c concl s)"
| "run_call (PauseThinking c r) s = snd (pauseThinking c r s)"
| "run_call (ResumeThinking c) s = snd (resumeThinking c s)"
| "run_call (SwitchCognitiveMode mode c) s = snd (switchCognitiveMode mode c s)"

text \<open>A sequence of calls, one after the other.\<close>

definition run_calls :: "tp_call list \<Rightarrow> thinking_process \<Rightarrow> thinking_process" where
  "run_calls calls s = fold run_call calls s"

text \<open>The ids a call draws from \<open>uuidv4()\<close> for new chains.\<close>

fun new_chain_ids :: "tp_call \<Rightarrow> string list" where
  "new_chain_ids (StartThoughtProcess uuid now g ctx) = [uuid]"
| "new_chain_ids (BranchThought b uuid now t txt ty conf) = [b]"
| "new_chain_ids _ = []"

section \<open>Storage: saving under a lock file\<close>

text \<open>
  The three files of the storage directory: the lock file with its modification time in
  milliseconds, the memory file and its backup with their contents. \<open>fs.access\<close> and
  \<open>fs.stat\<close> succeed exactly on a file that exists; the writing calls fail when the
  environment says so.
\<close>

record 'd files =
  lock_file :: "int option"
  memory_file :: "'d option"
  backup_file :: "'d option"

record io_faults =
  createLock_fails :: bool
  copyFile_fails :: bool
  writeFile_fails :: bool
  unlink_fails :: bool

text \<open>\<open>removeLock\<close> swallows every error of \<open>fs.unlink\<close>.\<close>

definition removeLock :: "io_faults \<Rightarrow> 'd files \<Rightarrow> 'd files" where
  "removeLock io fs = (if unlink_fails io then fs else fs\<lparr>lock_file := None\<rparr>)"

definition isLocked :: "io_faults \<Rightarrow> int \<Rightarrow> 'd files \<Rightarrow> bool \<times> 'd files" where
  "isLocked io now fs =
     (case lock_file fs of
        None \<Rightarrow> (False, fs)
      | Some mtimeMs \<Rightarrow>
          (let age = now - mtimeMs
           in if age > 5 * 60 * 1000 then (False, removeLock io fs) else (True, fs)))"

definition createLock :: "io_faults \<Rightarrow> int \<Rightarrow> 'd files \<Rightarrow> 'd files option" where
  "createLock io now fs = (if createLock_fails io then None else Some (fs\<lparr>lock_file := Some now\<rparr>))"

text \<open>
  \<open>save(nodes)\<close> with the reading of the clock in \<open>isLocked\<close> and the later one in
  \<open>createLock\<close>. An exception inside the inner \<open>try\<close> runs the \<open>finally\<close> block and
  then the outer \<open>catch\<close>, which both remove the lock.
\<close>

definition save :: "bool \<Rightarrow> io_faults \<Rightarrow> int \<Rightarrow> int \<Rightarrow> 'd \<Rightarrow> 'd files \<Rightarrow> (error + unit) \<times> 'd files" where
  "save enableBackup io now now_lock snapshot fs =
     (case isLocked io now fs of
        (True, fs1) \<Rightarrow> (Inl StorageLocked, fs1)
      | (False, fs1) \<Rightarrow>
          (case createLock io now_lock fs1 of
             None \<Rightarrow> (Inl SaveFailed, removeLock io fs1)
           | Some fs2 \<Rightarrow>
               (let fs3 = (if enableBackup
                           then (case memory_file fs2 of
                                   None \<Rightarrow> fs2
                                 | Some d \<Rightarrow> if copyFile_fails io then fs2
                                             else fs2\<lparr>backup_file := Some d\<rparr>)
                           else fs2)
                in if writeFile_fails io
                   then (Inl SaveFailed, removeLock io (removeLock io fs3))
                   else (Inr (), removeLock io (fs3\<lparr>memory_file := Some snapshot\<rparr>)))))"

section \<open>Notions the properties are stated with\<close>

text \<open>
  The ids of nodes, chains and thoughts come from \<open>uuidv4()\<close>, whose results have the
  textual form of a UUID: 36 characters, hyphens at positions 8, 13, 18 and 23, lower-case
  hexadecimal digits elsewhere.
\<close>

definition is_hex :: "char \<Rightarrow> bool" where
  "is_hex c = (c \<in> set ''0123456789abcdef'')"

definition is_uuid :: "string \<Rightarrow> bool" where
  "is_uuid s =
     (length s = 36 \<and>
      list_all (\<lambda>(i, c). if i \<in> {8, 13, 18, 23} then c = CHR ''-'' else is_hex c)
        (enumerate (0::nat) s))"

text \<open>What completing a chain does to one of its thoughts: an active one becomes completed.\<close>

definition finish :: "thought_node \<Rightarrow> thought_node" where
  "finish th = (if status th = thought_active then th\<lparr>status := thought_completed\<rparr> else th)"

text \<open>The pairs \<open>search\<close> would collect without a limit, in the order of the map.\<close>

definition matches :: "string \<Rightarrow> bool \<Rightarrow> (string \<times> node) list \<Rightarrow> (string \<times> string) list" where
  "matches keyword caseSensitive ns =
     map (\<lambda>(k, n). (node_id n, node_text n))
       (filter (\<lambda>(k, n). if caseSensitive then includes_str (node_text n) keyword
                          else includes_str (toLowerCase (node_text n)) (toLowerCase keyword)) ns)"

text \<open>
  The calls on a \<open>LongTermMemory\<close> and what one call leaves: whether it reported
  success, and the state.
\<close>

datatype ltm_call =
    Add string string string "string list"
  | Get string string "int option"
  | Search string "int option" "bool option"
  | Update string string "string option" "string list option"
  | Delete string
  | GetAssociations string
  | GetAllNodes
  | LoadNodes "(string \<times> node) list"
  | GetCount
  | CheckIsDirty
  | MarkClean
  | GetTotalAssociations

fun run_ltm :: "ltm_call \<Rightarrow> ltm \<Rightarrow> bool \<times> ltm" where
  "run_ltm (Add uuid now t as) m = (let r = add uuid now t as m in (\<not> isl (fst r), snd r))"
| "run_ltm (Get now i d) m = (let r = get now i d m in (\<not> isl (fst r), snd r))"
| "run_ltm (Search k l c) m = (let r = search k l c m in (\<not> isl (fst r), snd r))"
| "run_ltm (Update now i t as) m = (let r = update now i t as m in (\<not> isl (fst r), snd r))"
| "run_ltm (Delete i) m = (let r = delete i m in (\<not> isl (fst r), snd r))"
| "run_ltm (GetAssociations i) m = (let r = getAssociations i m in (\<not> isl (fst r), snd r))"
| "run_ltm GetAllNodes m = (True, m)"
| "run_ltm (LoadNodes entries) m = (let r = loadNodes entries m in (\<not> isl (fst r), snd r))"
| "run_ltm GetCount m = (True, m)"
| "run_ltm CheckIsDirty m = (True, m)"
| "run_ltm MarkClean m = (True, markClean m)"
| "run_ltm GetTotalAssociations m = (True, m)"

fun sets_dirty :: "ltm_call \<Rightarrow> bool" where
  "sets_dirty (Add uuid now t as) = True"
| "sets_dirty (Get now i d) = True"
| "sets_dirty (Update now i t as) = True"
| "sets_dirty (Delete i) = True"
| "sets_dirty _ = False"

fun clears_dirty :: "ltm_call \<Rightarrow> bool" where
  "clears_dirty MarkClean = True"
| "clears_dirty (LoadNodes entries) = True"
| "clears_dirty _ = False"

section \<open>States used in the examples\<close>

definition uuid_a :: string where "uuid_a = ''aaaaaaaa-aaaa-4aaa-8aaa-aaaaaaaaaaaa''"
definition uuid_b :: string where "uuid_b = ''bbbbbbbb-bbbb-4bbb-8bbb-bbbbbbbbbbbb''"
definition uuid_c :: string where "uuid_c = ''cccccccc-cccc-4ccc-8ccc-cccccccccccc''"
definition uuid_d :: string where "uuid_d = ''dddddddd-dddd-4ddd-8ddd-dddddddddddd''"
definition uuid_e :: string where "uuid_e = ''eeeeeeee-eeee-4eee-8eee-eeeeeeeeeeee''"
definition uuid_f :: string where "uuid_f = ''ffffffff-ffff-4fff-8fff-ffffffffffff''"

lemmas uuid_defs = uuid_a_def uuid_b_def uuid_c_def uuid_d_def uuid_e_def uuid_f_def

definition empty_ltm :: ltm where
  "empty_ltm = \<lparr>nodes = [], isDirty = False\<rparr>"

definition empty_tp :: thinking_process where
  "empty_tp = \<lparr>chains = Map.empty, thought_map = Map.empty, longTermMemory = empty_ltm,
               currentMode = analytical\<rparr>"

text \<open>\<open>add("first", [])\<close>, then \<open>add("second", [a, a])\<close>: node \<open>b\<close> lists \<open>a\<close> twice.\<close>

definition twice_ltm :: ltm where
  "twice_ltm =
     snd (add uuid_b ''t1'' ''second'' [uuid_a, uuid_a]
       (snd (add uuid_a ''t0'' ''first'' [] empty_ltm)))"

text \<open>The line \<open>a \<rightarrow> b \<rightarrow> c\<close>, built from its end.\<close>

definition line_ltm :: ltm where
  "line_ltm =
     snd (add uuid_a ''t2'' ''A'' [uuid_b]
       (snd (add uuid_b ''t1'' ''B'' [uuid_c]
         (snd (add uuid_c ''t0'' ''C'' [] empty_ltm)))))"

text \<open>
  Four nodes: \<open>a\<close> associates \<open>b\<close> and then \<open>d\<close>, \<open>b\<close> associates \<open>d\<close>, \<open>d\<close>
  associates \<open>e\<close>.
\<close>

definition diamond_ltm :: ltm where
  "diamond_ltm =
     snd (add uuid_a ''t3'' ''A'' [uuid_b, uuid_d]
       (snd (add uuid_b ''t2'' ''B'' [uuid_d]
         (snd (add uuid_d ''t1'' ''D'' [uuid_e]
           (snd (add uuid_e ''t0'' ''E'' [] empty_ltm)))))))"

text \<open>One active chain \<open>c\<close> holding one thought \<open>d\<close>.\<close>

definition one_chain_tp :: thinking_process where
  "one_chain_tp =
     snd (addThought uuid_d ''t1'' uuid_c ''an idea'' observation None 0.7
       (snd (startThoughtProcess uuid_c ''t0'' ''a goal'' None empty_tp)))"

text \<open>A second active chain \<open>e\<close> beside it, still without thoughts.\<close>

definition two_chains_tp :: thinking_process where
  "two_chains_tp = snd (startThoughtProcess uuid_e ''t2'' ''another goal'' None one_chain_tp)"

text \<open>The two chains after \<open>c\<close>, with its thought, has been completed; \<open>e\<close> is still active.\<close>

definition completed_tp :: thinking_process where
  "completed_tp =
     snd (completeThoughtProcess uuid_a ''t3'' ''t3'' uuid_c ''done'' two_chains_tp)"

text \<open>The same trackers with the memory that holds the nodes \<open>a\<close> and \<open>b\<close>.\<close>

definition one_chain_mem_tp :: thinking_process where
  "one_chain_mem_tp = one_chain_tp\<lparr>longTermMemory := twice_ltm\<rparr>"

definition two_chains_mem_tp :: thinking_process where
  "two_chains_mem_tp = two_chains_tp\<lparr>longTermMemory := twice_ltm\<rparr>"

text \<open>A storage directory with a lock file written at time 0 and an older memory file.\<close>

definition locked_files :: "(string \<times> node) list files" where
  "locked_files = \<lparr>lock_file = Some 0, memory_file = Some [], backup_file = None\<rparr>"

definition no_faults :: io_faults where
  "no_faults = \<lparr>createLock_fails = False, copyFile_fails = False, writeFile_fails = False,
                unlink_fails = False\<rparr>"

section \<open>Properties of the memory graph\<close>

lemmas str_defs = is_empty_def trim_def is_space_def

lemmas ex_defs = twice_ltm_def empty_ltm_def add_def str_defs has_def uuid_defs

lemma has_iff: "has ns k \<longleftrightarrow> k \<in> fst ` set ns"
  by (simp add: has_def map_of_eq_None_iff)

lemma first_unknown_None: "first_unknown ns as = None \<longleftrightarrow> (\<forall>a\<in>set as. has ns a)"
  by (induction as) auto

lemma first_unknown_Some: "first_unknown ns as = Some a \<Longrightarrow> a \<in> set as \<and> \<not> has ns a"
  by (induction as) (auto split: if_splits)

lemma update_fresh: "map_of al k = None \<Longrightarrow> AList.update k v al = al @ [(k, v)]"
  by (induction al) (auto split: if_splits)

subsection \<open>Deleting a node\<close>

lemma delete_succeeds:
  "has (nodes m) x \<Longrightarrow> fst (delete x m) = Inr () \<and> \<not> has (nodes (snd (delete x m))) x"
  by (simp add: delete_def has_def AList.delete_conv')

lemma delete_entries:
  "has (nodes m) x \<Longrightarrow>
   nodes (snd (delete x m)) =
     map (\<lambda>(k, n). (k, strip_assoc x n)) (filter (\<lambda>(k, n). x \<noteq> k) (nodes m))"
  by (simp add: delete_def AList.delete_eq filter_map comp_def case_prod_unfold)

text \<open>Every surviving node loses one occurrence of the deleted id, the first.\<close>

lemma delete_strips_one:
  "has (nodes m) x \<Longrightarrow> (k, n') \<in> set (nodes (snd (delete x m))) \<Longrightarrow>
   \<exists>n. (k, n) \<in> set (nodes m) \<and> k \<noteq> x \<and> associations n' = remove1 x (associations n)"
  by (auto simp: delete_entries strip_assoc_def)

text \<open>So the id is gone from every list that held it at most once.\<close>

lemma delete_strips_distinct:
  assumes "has (nodes m) x" and "(k, n') \<in> set (nodes (snd (delete x m)))"
    and "\<forall>(k, n)\<in>set (nodes m). distinct (associations n)"
  shows "x \<notin> set (associations n')"
proof -
  from delete_strips_one[OF assms(1,2)] obtain n where
    n: "(k, n) \<in> set (nodes m)" "associations n' = remove1 x (associations n)" by blast
  with assms(3) have "distinct (associations n)" by auto
  with n show ?thesis by simp
qed

text \<open>
  Claim C1: deleting an existing node \<open>X\<close> succeeds, removes \<open>X\<close> from the node map and
  leaves \<open>X\<close> in no remaining association list, also when a list held \<open>X\<close> more than
  once. The code removes one occurrence per list: after \<open>add("first", [])\<close> gave \<open>a\<close>
  and \<open>add("second", [a, a])\<close> gave \<open>b\<close>, \<open>delete(a)\<close> succeeds and removes \<open>a\<close> from
  the map, but \<open>b\<close> still lists \<open>a\<close>, a node that no longer exists.
\<close>

theorem delete_keeps_second_occurrence:
  "fst (delete uuid_a twice_ltm) = Inr () \<and>
   \<not> has (nodes (snd (delete uuid_a twice_ltm))) uuid_a \<and>
   map (\<lambda>(k, n). (k, associations n)) (nodes twice_ltm) =
     [(uuid_a, []), (uuid_b, [uuid_a, uuid_a])] \<and>
   map (\<lambda>(k, n). (k, associations n)) (nodes (snd (delete uuid_a twice_ltm))) =
     [(uuid_b, [uuid_a])]"
  by (simp add: ex_defs delete_def strip_assoc_def)

subsection \<open>Reading a node with its associated nodes\<close>

text \<open>On the line \<open>a \<rightarrow> b \<rightarrow> c\<close> depth 1 gives \<open>b\<close>, depth 2 gives \<open>b, c\<close>, depth 0 nothing.\<close>

lemma get_on_line:
  "(case fst (get ''now'' uuid_a (Some 1) line_ltm) of
      Inl e \<Rightarrow> False | Inr (n, as) \<Rightarrow> map node_id as = [uuid_b]) \<and>
   (case fst (get ''now'' uuid_a (Some 2) line_ltm) of
      Inl e \<Rightarrow> False | Inr (n, as) \<Rightarrow> map node_id as = [uuid_b, uuid_c]) \<and>
   (case fst (get ''now'' uuid_a (Some 0) line_ltm) of
      Inl e \<Rightarrow> False | Inr (n, as) \<Rightarrow> map node_id as = [])"
  by (simp add: line_ltm_def ex_defs get_def touch_def getAssociatedNodes_def)

text \<open>
  Claim C2: \<open>get(id, d)\<close> returns, besides the target, exactly the nodes whose least
  number of hops from the target is between 1 and \<open>d\<close>; none within \<open>d\<close> hops is left
  out. The traversal marks a node as visited at the depth it first meets it: with
  \<open>a \<rightarrow> [b, d]\<close>, \<open>b \<rightarrow> [d]\<close>, \<open>d \<rightarrow> [e]\<close> and depth 2 it meets \<open>d\<close> below \<open>b\<close> at
  depth 2, does not descend, and skips \<open>d\<close> when it comes to it at depth 1. The result is
  \<open>b, d\<close>; the existing node \<open>e\<close>, two hops from \<open>a\<close> by way of \<open>d\<close>, is missing.
\<close>

theorem get_omits_node_within_depth:
  "map (\<lambda>(k, n). (k, associations n)) (nodes diamond_ltm) =
     [(uuid_e, []), (uuid_d, [uuid_e]), (uuid_b, [uuid_d]), (uuid_a, [uuid_b, uuid_d])] \<and>
   (case fst (get ''now'' uuid_a (Some 2) diamond_ltm) of
      Inl e \<Rightarrow> False
    | Inr (n, as) \<Rightarrow> map node_id as = [uuid_b, uuid_d])"
  by (simp add: diamond_ltm_def ex_defs get_def touch_def getAssociatedNodes_def)

subsection \<open>Adding a node\<close>

text \<open>
  Claim C5: \<open>add\<close> with an association list that holds an id unknown to the node map
  fails and changes nothing, neither a node nor the dirty flag; with a text that is not
  empty, all association ids known and a fresh id from \<open>uuidv4()\<close>, it appends exactly
  one node under that id, leaves the others as they are and returns the id.
\<close>

theorem add_all_or_nothing:
  "((\<exists>a\<in>set assocs. \<not> has (nodes m) a) \<longrightarrow> (\<exists>e. add uuid now text assocs m = (Inl e, m))) \<and>
   (\<not> is_empty text \<and> (\<forall>a\<in>set assocs. has (nodes m) a) \<and> \<not> has (nodes m) uuid \<longrightarrow>
      add uuid now text assocs m =
        (Inr uuid,
         m\<lparr>nodes := nodes m @
              [(uuid, \<lparr>node_id = uuid, node_text = trim text, associations = assocs,
                       metadata = \<lparr>createdAt = now, lastAccessed = now, accessCount = 0\<rparr>\<rparr>)],
           isDirty := True\<rparr>))"
proof (intro conjI impI)
  assume "\<exists>a\<in>set assocs. \<not> has (nodes m) a"
  then have "first_unknown (nodes m) assocs \<noteq> None"
    by (simp add: first_unknown_None)
  then show "\<exists>e. add uuid now text assocs m = (Inl e, m)"
    by (auto simp: add_def)
next
  assume a: "\<not> is_empty text \<and> (\<forall>a\<in>set assocs. has (nodes m) a) \<and> \<not> has (nodes m) uuid"
  then have "first_unknown (nodes m) assocs = None"
    by (simp add: first_unknown_None)
  with a show "add uuid now text assocs m =
        (Inr uuid,
         m\<lparr>nodes := nodes m @
              [(uuid, \<lparr>node_id = uuid, node_text = trim text, associations = assocs,
                       metadata = \<lparr>createdAt = now, lastAccessed = now, accessCount = 0\<rparr>\<rparr>)],
           isDirty := True\<rparr>)"
    by (simp add: add_def update_fresh has_def)
qed

theorem add_all_or_nothing_witness:
  "\<not> has (nodes twice_ltm) uuid_c \<and>
   (\<exists>e. add uuid_d ''t2'' ''third'' [uuid_c] twice_ltm = (Inl e, twice_ltm)) \<and>
   \<not> is_empty ''third'' \<and> has (nodes twice_ltm) uuid_b \<and>
   \<not> has (nodes twice_ltm) uuid_d \<and>
   map fst (nodes (snd (add uuid_d ''t2'' ''third'' [uuid_b] twice_ltm))) =
     [uuid_a, uuid_b, uuid_d] \<and>
   fst (add uuid_d ''t2'' ''third'' [uuid_b] twice_ltm) = Inr uuid_d"
proof -
  have h1: "\<exists>a\<in>set [uuid_c]. \<not> has (nodes twice_ltm) a"
    by (simp add: ex_defs)
  have h2: "\<not> is_empty ''third'' \<and> (\<forall>a\<in>set [uuid_b]. has (nodes twice_ltm) a) \<and>
      \<not> has (nodes twice_ltm) uuid_d"
    by (simp add: ex_defs)
  have k: "map fst (nodes twice_ltm) = [uuid_a, uuid_b]"
    by (simp add: ex_defs)
  from h1 add_all_or_nothing[of "[uuid_c]" twice_ltm uuid_d "''t2''" "''third''"]
  have c1: "\<exists>e. add uuid_d ''t2'' ''third'' [uuid_c] twice_ltm = (Inl e, twice_ltm)"
    by blast
  from h2 add_all_or_nothing[of "[uuid_b]" twice_ltm uuid_d "''t2''" "''third''"]
  have c2: "add uuid_d ''t2'' ''third'' [uuid_b] twice_ltm =
        (Inr uuid_d,
         twice_ltm\<lparr>nodes := nodes twice_ltm @
              [(uuid_d, \<lparr>node_id = uuid_d, node_text = trim ''third'', associations = [uuid_b],
                       metadata = \<lparr>createdAt = ''t2'', lastAccessed = ''t2'', accessCount = 0\<rparr>\<rparr>)],
           isDirty := True\<rparr>)"
    by blast
  from h1 h2 have "\<not> has (nodes twice_ltm) uuid_c" "has (nodes twice_ltm) uuid_b"
    by simp_all
  with h2 c1 show ?thesis by (simp add: c2 k)
qed

subsection \<open>Searching\<close>

lemma startsWith_iff: "startsWith s t \<longleftrightarrow> (\<exists>b. s = t @ b)"
  by (induction s t rule: startsWith.induct) auto

text \<open>\<open>includes_str\<close> is literal containment.\<close>

lemma includes_str_iff: "includes_str s t \<longleftrightarrow> (\<exists>a b. s = a @ t @ b)"
proof (induction s)
  case Nil
  then show ?case by simp
next
  case (Cons c cs)
  show ?case
  proof
    assume "includes_str (c # cs) t"
    then consider "startsWith (c # cs) t" | "includes_str cs t" by auto
    then show "\<exists>a b. c # cs = a @ t @ b"
    proof cases
      case 1
      then obtain b where "c # cs = t @ b" by (auto simp: startsWith_iff)
      then have "c # cs = [] @ t @ b" by simp
      then show ?thesis by blast
    next
      case 2
      with Cons.IH obtain a b where "cs = a @ t @ b" by blast
      then have "c # cs = (c # a) @ t @ b" by simp
      then show ?thesis by blast
    qed
  next
    assume "\<exists>a b. c # cs = a @ t @ b"
    then obtain a b where ab: "c # cs = a @ t @ b" by blast
    show "includes_str (c # cs) t"
    proof (cases a)
      case Nil
      with ab have "startsWith (c # cs) t" by (auto simp: startsWith_iff)
      then show ?thesis by simp
    next
      case (Cons x xs)
      with ab have "cs = xs @ t @ b" by simp
      with Cons.IH have "includes_str cs t" by blast
      then show ?thesis by simp
    qed
  qed
qed

text \<open>While the results are fewer than the limit, the loop yields the first \<open>limit\<close> entries.\<close>

lemma search_loop_take:
  "int (length rs) < limit \<Longrightarrow>
   search_loop t cs limit ns rs =
     take (nat limit)
       (rs @ map (\<lambda>(k, n). (node_id n, node_text n))
          (filter (\<lambda>(k, n). includes_str (if cs then node_text n else toLowerCase (node_text n)) t)
             ns))"
proof (induction ns arbitrary: rs)
  case Nil
  then show ?case by simp
next
  case (Cons p ns)
  obtain k n where p: "p = (k, n)" by (cases p)
  show ?case
  proof (cases "includes_str (if cs then node_text n else toLowerCase (node_text n)) t")
    case False
    with Cons p show ?thesis by (simp add: Let_def)
  next
    case True
    show ?thesis
    proof (cases "int (length (rs @ [(node_id n, node_text n)])) \<ge> limit")
      case full: True
      with Cons.prems have "nat limit = Suc (length rs)" by simp
      with True full p show ?thesis by (simp add: Let_def)
    next
      case False
      then have "int (length (rs @ [(node_id n, node_text n)])) < limit" by simp
      from Cons.IH[OF this] True False p show ?thesis by (simp add: Let_def)
    qed
  qed
qed

text \<open>
  For a keyword that is not empty and a limit of at least 1 the result is the first
  \<open>limit\<close> matching pairs in the order of the map, and all of them when there are fewer.
\<close>

lemma search_from_limit_one:
  assumes "\<not> is_empty keyword" and "1 \<le> limit"
  shows "search keyword (Some limit) (Some cs) m =
           (Inr (take (nat limit) (matches keyword cs (nodes m))), m)"
  using assms
    search_loop_take[of "[]" limit "if cs then keyword else toLowerCase keyword" cs "nodes m"]
  by (auto simp: search_def matches_def Let_def)

text \<open>
  Claim C6: for every non-empty keyword, limit and case flag, \<open>search\<close> returns the pairs
  of the matching nodes in insertion order, at most \<open>limit\<close> of them. The loop compares
  the number of results with the limit only after it has pushed a match, so with limit 0
  the first match is returned: one entry where at most none is allowed.
\<close>

theorem search_limit_zero_returns_one:
  "search ''first'' (Some 0) None twice_ltm = (Inr [(uuid_a, ''first'')], twice_ltm)"
  by (simp add: search_def ex_defs toLowerCase_def lower_char_def Let_def)

subsection \<open>The dirty flag\<close>

text \<open>
  Claim C9, as the code has it: a successful \<open>add\<close>, \<open>get\<close>, \<open>update\<close> or \<open>delete\<close>
  leaves the dirty flag set; \<open>markClean\<close> and \<open>loadNodes\<close> clear it; every other call
  leaves a set flag set.
\<close>

theorem dirty_flag_cleared_by_two:
  "(sets_dirty call \<and> fst (run_ltm call m) \<longrightarrow> isDirty (snd (run_ltm call m))) \<and>
   (clears_dirty call \<longrightarrow> \<not> isDirty (snd (run_ltm call m))) \<and>
   (\<not> clears_dirty call \<and> isDirty m \<longrightarrow> isDirty (snd (run_ltm call m)))"
  by (cases call)
     (auto simp: Let_def add_def get_def search_def update_def delete_def getAssociations_def
        loadNodes_def markClean_def split: option.splits sum.splits if_splits)

theorem dirty_flag_cleared_by_two_witness:
  "sets_dirty (Delete uuid_a) \<and> fst (run_ltm (Delete uuid_a) twice_ltm) \<and>
   \<not> clears_dirty (Delete uuid_a) \<and> isDirty twice_ltm \<and>
   isDirty (snd (run_ltm (Delete uuid_a) twice_ltm)) \<and>
   clears_dirty MarkClean \<and> \<not> isDirty (snd (run_ltm MarkClean twice_ltm))"
proof -
  have h: "sets_dirty (Delete uuid_a) \<and> fst (run_ltm (Delete uuid_a) twice_ltm) \<and>
      \<not> clears_dirty (Delete uuid_a) \<and> isDirty twice_ltm \<and> clears_dirty MarkClean"
    by (simp add: ex_defs delete_def Let_def)
  with dirty_flag_cleared_by_two[of "Delete uuid_a" twice_ltm]
    dirty_flag_cleared_by_two[of MarkClean twice_ltm]
  show ?thesis by blast
qed

text \<open>
  Claim C9 as stated makes \<open>markClean\<close> the only operation that clears the flag.
  \<open>loadNodes\<close> is another: called on a memory whose flag is set, it leaves it cleared.
\<close>

theorem loadNodes_clears_dirty:
  "isDirty twice_ltm \<and> \<not> isDirty (snd (loadNodes (nodes twice_ltm) twice_ltm))"
  by (simp add: ex_defs loadNodes_def)

section \<open>Properties of the thinking process\<close>

lemmas tp_defs =
  one_chain_tp_def two_chains_tp_def empty_tp_def empty_ltm_def startThoughtProcess_def
  addThought_def completeThoughtProcess_def memoryText_def str_defs uuid_defs

subsection \<open>Failing calls\<close>

text \<open>\<open>update\<close> with a new text and an unknown association fails after it has written the text.\<close>

lemma update_failure_writes_text:
  "fst (update ''t2'' uuid_a (Some ''changed'') (Some [uuid_c]) twice_ltm) =
     Inl (AssocNotFound uuid_c) \<and>
   map_option node_text (map_of (nodes twice_ltm) uuid_a) = Some ''first'' \<and>
   map_option node_text
     (map_of (nodes (snd (update ''t2'' uuid_a (Some ''changed'') (Some [uuid_c]) twice_ltm)))
        uuid_a) = Some ''changed''"
  by (simp add: ex_defs update_def Let_def)

text \<open>
  Claim C3: an operation that returns a failure leaves the node, chain and thought maps
  as they were; in particular \<open>branchThought\<close> with an empty text or a confidence out of
  range leaves the chain map and the branches of the source chain unchanged. The code
  stores the branch chain and registers it with the source chain first and lets
  \<open>addThought\<close> validate afterwards: on a tracker with the chain \<open>c\<close> and its thought
  \<open>d\<close>, both calls fail, and both leave a new active chain \<open>b\<close> in the map and \<open>b\<close> in
  the branches of \<open>c\<close>.
\<close>

theorem branchThought_failure_writes:
  "fst (branchThought uuid_b uuid_f ''t2'' uuid_d [] hypothesis 0.6 one_chain_tp) =
     Inl EmptyThought \<and>
   fst (branchThought uuid_b uuid_f ''t2'' uuid_d ''what if'' hypothesis 1.5 one_chain_tp) =
     Inl BadConfidence \<and>
   chains one_chain_tp uuid_b = None \<and>
   map_option branches (chains one_chain_tp uuid_c) = Some [] \<and>
   map_option chain_status
     (chains (snd (branchThought uuid_b uuid_f ''t2'' uuid_d [] hypothesis 0.6 one_chain_tp))
        uuid_b) = Some chain_active \<and>
   map_option branches
     (chains (snd (branchThought uuid_b uuid_f ''t2'' uuid_d [] hypothesis 0.6 one_chain_tp))
        uuid_c) = Some [uuid_b] \<and>
   map_option branches
     (chains
        (snd (branchThought uuid_b uuid_f ''t2'' uuid_d ''what if'' hypothesis 1.5 one_chain_tp))
        uuid_c) = Some [uuid_b]"
  by (simp add: tp_defs branchThought_def Let_def)

subsection \<open>Completing a chain\<close>

lemma is_uuid_not_thought: "\<not> is_uuid (thought_ref x)"
  by (auto simp: is_uuid_def is_hex_def thought_ref_def)

lemma memoryText_not_empty: "\<not> is_empty (memoryText g c)"
  by (simp add: memoryText_def is_empty_def trim_def is_space_def)

lemma finish_finish: "finish (finish th) = finish th"
  by (simp add: finish_def)

lemma complete_thought_apply:
  "complete_thought a tm t = (if t = a then map_option finish (tm a) else tm t)"
  by (cases "tm a") (auto simp: complete_thought_def finish_def)

lemma fold_complete_thought:
  "fold complete_thought ts tm t = (if t \<in> set ts then map_option finish (tm t) else tm t)"
proof (induction ts arbitrary: tm)
  case Nil
  then show ?case by simp
next
  case (Cons a ts)
  have "fold complete_thought (a # ts) tm t = fold complete_thought ts (complete_thought a tm) t"
    by simp
  also have "\<dots> = (if t \<in> set ts then map_option finish (complete_thought a tm t)
                    else complete_thought a tm t)"
    by (rule Cons.IH)
  also have "\<dots> = (if t \<in> set (a # ts) then map_option finish (tm t) else tm t)"
    by (cases "tm a") (auto simp: complete_thought_apply finish_finish option.map_comp comp_def)
  finally show ?case .
qed

text \<open>In a memory whose ids are UUIDs, \<open>add\<close> rejects any non-empty list of thought references.\<close>

lemma add_thought_ids_fail:
  assumes "\<forall>k\<in>fst ` set (nodes m). is_uuid k" and "ts \<noteq> []"
  shows "snd (add uuid now text (map thought_ref ts) m) = m"
proof -
  obtain t ts' where ts: "ts = t # ts'" using assms(2) by (cases ts) auto
  have "\<not> has (nodes m) (thought_ref t)"
    using assms(1) is_uuid_not_thought unfolding has_iff by blast
  then show ?thesis by (simp add: add_def ts)
qed

text \<open>
  Claim C4: for an existing chain and a conclusion that is not empty,
  \<open>completeThoughtProcess\<close> succeeds, sets the status of the chain to completed and its
  \<open>completed_at\<close>, and turns the active thoughts listed in the chain, and no others,
  into completed ones. Its call of \<open>add\<close> with the associations \<open>thought:<id>\<close> leaves
  the memory as it was when the chain has a thought, and appends the summary node when
  the chain has none. The node ids of the memory are UUIDs and the id drawn is fresh.
\<close>

theorem completeThoughtProcess_summary:
  assumes "chains s chainId = Some chain" and "\<not> is_empty conclusion"
    and "\<forall>k\<in>fst ` set (nodes (longTermMemory s)). is_uuid k"
    and "\<not> has (nodes (longTermMemory s)) uuid"
  shows "fst (completeThoughtProcess uuid now now_add chainId conclusion s) = Inr () \<and>
    chains (snd (completeThoughtProcess uuid now now_add chainId conclusion s)) chainId =
      Some (chain\<lparr>chain_status := chain_completed, completed_at := Some now\<rparr>) \<and>
    (\<forall>t. thought_map (snd (completeThoughtProcess uuid now now_add chainId conclusion s)) t =
       (if t \<in> set (thoughts chain) then map_option finish (thought_map s t)
        else thought_map s t)) \<and>
    (thoughts chain \<noteq> [] \<longrightarrow>
       longTermMemory (snd (completeThoughtProcess uuid now now_add chainId conclusion s)) =
         longTermMemory s) \<and>
    (thoughts chain = [] \<longrightarrow>
       longTermMemory (snd (completeThoughtProcess uuid now now_add chainId conclusion s)) =
         (longTermMemory s)\<lparr>nodes := nodes (longTermMemory s) @
            [(uuid, \<lparr>node_id = uuid, node_text = trim (memoryText (goal chain) conclusion),
                     associations = [],
                     metadata = \<lparr>createdAt = now_add, lastAccessed = now_add, accessCount = 0\<rparr>\<rparr>)],
            isDirty := True\<rparr>)"
proof -
  let ?ids = "map thought_ref (thoughts chain)"
  let ?text = "memoryText (goal chain) conclusion"
  have r: "completeThoughtProcess uuid now now_add chainId conclusion s = (Inr (),
      s\<lparr>chains := (chains s)(chainId \<mapsto>
           chain\<lparr>chain_status := chain_completed, completed_at := Some now\<rparr>),
        thought_map := fold complete_thought (thoughts chain) (thought_map s),
        longTermMemory := snd (add uuid now_add ?text ?ids (longTermMemory s))\<rparr>)"
    using assms(1,2) by (simp add: completeThoughtProcess_def Let_def)
  have some: "thoughts chain \<noteq> [] \<Longrightarrow>
      snd (add uuid now_add ?text ?ids (longTermMemory s)) = longTermMemory s"
    using add_thought_ids_fail[OF assms(3)] by blast
  have none: "thoughts chain = [] \<Longrightarrow> snd (add uuid now_add ?text ?ids (longTermMemory s)) =
      (longTermMemory s)\<lparr>nodes := nodes (longTermMemory s) @
            [(uuid, \<lparr>node_id = uuid, node_text = trim ?text, associations = [],
                     metadata = \<lparr>createdAt = now_add, lastAccessed = now_add, accessCount = 0\<rparr>\<rparr>)],
            isDirty := True\<rparr>"
    using memoryText_not_empty assms(4) by (simp add: add_def update_fresh has_def)
  show ?thesis
    unfolding r using some none by (simp add: fold_complete_thought)
qed

theorem completeThoughtProcess_summary_witness:
  "map_option thoughts (chains one_chain_mem_tp uuid_c) = Some [uuid_d] \<and>
   map_option thoughts (chains two_chains_mem_tp uuid_e) = Some [] \<and>
   \<not> is_empty ''done'' \<and>
   list_all is_uuid (map fst (nodes twice_ltm)) \<and> \<not> has (nodes twice_ltm) uuid_f \<and>
   fst (completeThoughtProcess uuid_f ''t5'' ''t6'' uuid_c ''done'' one_chain_mem_tp) = Inr () \<and>
   map_option chain_status
     (chains (snd (completeThoughtProcess uuid_f ''t5'' ''t6'' uuid_c ''done'' one_chain_mem_tp))
        uuid_c) = Some chain_completed \<and>
   longTermMemory
     (snd (completeThoughtProcess uuid_f ''t5'' ''t6'' uuid_c ''done'' one_chain_mem_tp)) =
     twice_ltm \<and>
   map fst (nodes (longTermMemory
     (snd (completeThoughtProcess uuid_f ''t5'' ''t6'' uuid_e ''done'' two_chains_mem_tp)))) =
     [uuid_a, uuid_b, uuid_f]"
proof -
  obtain c1 where c1: "chains one_chain_mem_tp uuid_c = Some c1" "thoughts c1 = [uuid_d]"
    by (simp add: one_chain_mem_tp_def tp_defs)
  obtain c2 where c2: "chains two_chains_mem_tp uuid_e = Some c2" "thoughts c2 = []"
    by (simp add: two_chains_mem_tp_def tp_defs)
  have m: "longTermMemory one_chain_mem_tp = twice_ltm"
    "longTermMemory two_chains_mem_tp = twice_ltm"
    by (simp_all add: one_chain_mem_tp_def two_chains_mem_tp_def)
  have e: "\<not> is_empty ''done''"
    by (simp add: str_defs)
  have k: "map fst (nodes twice_ltm) = [uuid_a, uuid_b]"
    by (simp add: ex_defs)
  have u: "\<forall>k\<in>fst ` set (nodes twice_ltm). is_uuid k"
    unfolding set_map[symmetric] k by (simp add: is_uuid_def is_hex_def uuid_defs)
  have f: "\<not> has (nodes twice_ltm) uuid_f"
    unfolding has_iff set_map[symmetric] k by (simp add: uuid_defs)
  note w1 = completeThoughtProcess_summary
      [of one_chain_mem_tp uuid_c c1 "''done''" uuid_f "''t5''" "''t6''", unfolded m, OF c1(1) e u f]
  note w2 = completeThoughtProcess_summary
      [of two_chains_mem_tp uuid_e c2 "''done''" uuid_f "''t5''" "''t6''", unfolded m, OF c2(1) e u f]
  from w1 c1 have a:
    "fst (completeThoughtProcess uuid_f ''t5'' ''t6'' uuid_c ''done'' one_chain_mem_tp) = Inr ()"
    "map_option chain_status
       (chains (snd (completeThoughtProcess uuid_f ''t5'' ''t6'' uuid_c ''done'' one_chain_mem_tp))
          uuid_c) = Some chain_completed"
    "longTermMemory
       (snd (completeThoughtProcess uuid_f ''t5'' ''t6'' uuid_c ''done'' one_chain_mem_tp)) =
     twice_ltm"
    by simp_all
  from w2 c2 have b: "map fst (nodes (longTermMemory
     (snd (completeThoughtProcess uuid_f ''t5'' ''t6'' uuid_e ''done'' two_chains_mem_tp)))) =
     [uuid_a, uuid_b, uuid_f]"
    by (simp add: k)
  from u have "list_all is_uuid (map fst (nodes twice_ltm))"
    by (simp add: list_all_iff)
  with a b c1 c2 e f show ?thesis by simp
qed

subsection \<open>The status of a chain\<close>

text \<open>\<open>addThought\<close> changes neither the status nor the branches of any chain.\<close>

lemma addThought_status:
  "chains s c = Some ch \<Longrightarrow>
   \<exists>ch'. chains (snd (addThought uuid now chainId t ty p conf s)) c = Some ch' \<and>
         chain_status ch' = chain_status ch \<and> branches ch' = branches ch"
  by (auto simp: addThought_def Let_def split: option.splits)

text \<open>\<open>branchThought\<close> leaves the status of every chain but the new one as it was.\<close>

lemma branchThought_status:
  assumes "chains s c = Some ch" and "c \<noteq> b"
  shows "\<exists>ch'. chains (snd (branchThought b uuid now t nt ty conf s)) c = Some ch' \<and>
           chain_status ch' = chain_status ch"
proof (cases "thought_map s t")
  case None
  with assms show ?thesis by (simp add: branchThought_def)
next
  case (Some orig)
  show ?thesis
  proof (cases "chains s (parent_chain orig)")
    case None
    with Some assms show ?thesis by (simp add: branchThought_def)
  next
    case (Some pc)
    let ?bc = "\<lparr>chain_id = b, goal = ''Branch from: '' @ take 50 (node_text orig) @ ''...'',
                chain_context = Some (goal pc), created_at = now, completed_at = None,
                chain_status = chain_active, thoughts = [], branches = [],
                cognitive_mode = currentMode s\<rparr>"
    let ?cs1 = "(chains s)(b \<mapsto> ?bc)"
    let ?cs2 = "(if b = parent_chain orig then ?cs1
                 else ?cs1(parent_chain orig \<mapsto> pc\<lparr>branches := branches pc @ [b]\<rparr>))"
    have r: "snd (branchThought b uuid now t nt ty conf s) =
        snd (addThought uuid now b nt ty None conf (s\<lparr>chains := ?cs2\<rparr>))"
      using \<open>thought_map s t = Some orig\<close> Some
      by (simp add: branchThought_def Let_def)
    from assms Some
    have "\<exists>ch1. chains (s\<lparr>chains := ?cs2\<rparr>) c = Some ch1 \<and> chain_status ch1 = chain_status ch"
      by auto
    then obtain ch1 where ch1: "chains (s\<lparr>chains := ?cs2\<rparr>) c = Some ch1"
      "chain_status ch1 = chain_status ch"
      by blast
    from addThought_status[OF ch1(1), of uuid now b nt ty None conf] ch1(2) show ?thesis
      unfolding r by auto
  qed
qed

text \<open>
  The status one call leaves an existing chain with: \<open>pauseThinking\<close> on the chain gives
  paused whatever the status was, \<open>resumeThinking\<close> on it gives active when it was
  paused, \<open>completeThoughtProcess\<close> on it with a conclusion that is not empty gives
  completed whatever it was, and everything else leaves the status alone.
\<close>

lemma run_call_status:
  assumes "chains s c = Some ch" and "c \<notin> set (new_chain_ids call)"
  shows "\<exists>ch'. chains (run_call call s) c = Some ch' \<and>
           chain_status ch' =
             (if \<exists>r. call = PauseThinking c r then chain_paused
              else if call = ResumeThinking c \<and> chain_status ch = chain_paused
                then chain_active
              else if \<exists>uuid now now_add concl.
                        call = CompleteThoughtProcess uuid now now_add c concl \<and>
                        \<not> is_empty concl
                then chain_completed
              else chain_status ch)"
proof (cases call)
  case (StartThoughtProcess uuid now g ctx)
  with assms show ?thesis by (auto simp: startThoughtProcess_def)
next
  case (AddThought uuid now chainId t ty p conf)
  with assms addThought_status[OF assms(1), of uuid now chainId t ty p conf]
  show ?thesis by auto
next
  case (BranchThought b uuid now t nt ty conf)
  with assms have "c \<noteq> b" by simp
  from branchThought_status[OF assms(1) this, of uuid now t nt ty conf] BranchThought
  show ?thesis by auto
next
  case (EvaluateThought now t conf r)
  with assms show ?thesis by (auto simp: evaluateThought_def Let_def split: option.splits)
next
  case (CompleteThoughtProcess uuid now now_add chainId concl)
  with assms show ?thesis
    by (auto simp: completeThoughtProcess_def Let_def split: option.splits)
next
  case (PauseThinking chainId r)
  with assms show ?thesis by (auto simp: pauseThinking_def split: option.splits)
next
  case (ResumeThinking chainId)
  with assms show ?thesis by (auto simp: resumeThinking_def split: option.splits)
next
  case (SwitchCognitiveMode mode chainId)
  with assms show ?thesis
    by (cases chainId) (auto simp: switchCognitiveMode_def Let_def split: option.splits)
qed

text \<open>A sequence of calls without a \<open>pauseThinking\<close> on the chain keeps it completed.\<close>

lemma run_calls_completed:
  assumes "chains s c = Some ch" and "chain_status ch = chain_completed"
    and "list_all (\<lambda>k. c \<notin> set (new_chain_ids k) \<and> (\<forall>r. k \<noteq> PauseThinking c r)) calls"
  shows "\<exists>ch'. chains (run_calls calls s) c = Some ch' \<and> chain_status ch' = chain_completed"
  using assms
proof (induction calls arbitrary: s ch)
  case Nil
  then show ?case by (simp add: run_calls_def)
next
  case (Cons k calls)
  from Cons.prems(3) have k: "c \<notin> set (new_chain_ids k)" "\<forall>r. k \<noteq> PauseThinking c r"
    and rest: "list_all (\<lambda>k. c \<notin> set (new_chain_ids k) \<and> (\<forall>r. k \<noteq> PauseThinking c r)) calls"
    by simp_all
  from run_call_status[OF Cons.prems(1) k(1)] k(2) Cons.prems(2)
  obtain ch1 where ch1: "chains (run_call k s) c = Some ch1" "chain_status ch1 = chain_completed"
    by (auto split: if_splits)
  from Cons.IH[OF ch1 rest] show ?case by (simp add: run_calls_def)
qed

text \<open>
  Claim C7, as the code has it. Completed is not a terminal status: for an existing
  chain and one call that writes to the tracker (the ids drawn for new chains being
  different from the id of the chain), \<open>pauseThinking\<close> on the chain leaves it paused
  whatever its status was, also when it was completed; \<open>resumeThinking\<close> on it leaves
  it active when it was paused; \<open>completeThoughtProcess\<close> on it with a conclusion that
  is not empty leaves it completed whatever its status was, also when it was paused;
  every other call, and every call on another chain, leaves the status as it was. So the
  status changes of one call are active to completed, paused to completed, active to
  paused, completed to paused and paused to active, and never completed to active. A
  completed chain stays completed under every sequence of calls that holds no
  \<open>pauseThinking\<close> on it.
\<close>

theorem chain_status_transitions:
  assumes "chains s c = Some ch" and "c \<notin> set (new_chain_ids call)"
  shows "(\<exists>ch'. chains (run_call call s) c = Some ch' \<and>
            chain_status ch' =
              (if \<exists>r. call = PauseThinking c r then chain_paused
               else if call = ResumeThinking c \<and> chain_status ch = chain_paused
                 then chain_active
               else if \<exists>uuid now now_add concl.
                         call = CompleteThoughtProcess uuid now now_add c concl \<and>
                         \<not> is_empty concl
                 then chain_completed
               else chain_status ch) \<and>
            (chain_status ch' = chain_status ch \<or>
             (chain_status ch, chain_status ch') \<in>
               {(chain_active, chain_completed), (chain_paused, chain_completed),
                (chain_active, chain_paused), (chain_completed, chain_paused),
                (chain_paused, chain_active)})) \<and>
         (chain_status ch = chain_completed \<and>
          list_all (\<lambda>k. c \<notin> set (new_chain_ids k) \<and> (\<forall>r. k \<noteq> PauseThinking c r)) calls \<longrightarrow>
            (\<exists>ch'. chains (run_calls calls s) c = Some ch' \<and>
                   chain_status ch' = chain_completed))"
proof (intro conjI impI)
  from run_call_status[OF assms] obtain ch' where
    ch': "chains (run_call call s) c = Some ch'"
    and st: "chain_status ch' =
              (if \<exists>r. call = PauseThinking c r then chain_paused
               else if call = ResumeThinking c \<and> chain_status ch = chain_paused
                 then chain_active
               else if \<exists>uuid now now_add concl.
                         call = CompleteThoughtProcess uuid now now_add c concl \<and>
                         \<not> is_empty concl
                 then chain_completed
               else chain_status ch)"
    by blast
  have "chain_status ch' = chain_status ch \<or>
        (chain_status ch, chain_status ch') \<in>
          {(chain_active, chain_completed), (chain_paused, chain_completed),
           (chain_active, chain_paused), (chain_completed, chain_paused),
           (chain_paused, chain_active)}"
    unfolding st by (cases "chain_status ch") (simp_all split: if_splits)
  with ch' st show "\<exists>ch'. chains (run_call call s) c = Some ch' \<and>
            chain_status ch' =
              (if \<exists>r. call = PauseThinking c r then chain_paused
               else if call = ResumeThinking c \<and> chain_status ch = chain_paused
                 then chain_active
               else if \<exists>uuid now now_add concl.
                         call = CompleteThoughtProcess uuid now now_add c concl \<and>
                         \<not> is_empty concl
                 then chain_completed
               else chain_status ch) \<and>
            (chain_status ch' = chain_status ch \<or>
             (chain_status ch, chain_status ch') \<in>
               {(chain_active, chain_completed), (chain_paused, chain_completed),
                (chain_active, chain_paused), (chain_completed, chain_paused),
                (chain_paused, chain_active)})"
    by blast
next
  assume "chain_status ch = chain_completed \<and>
          list_all (\<lambda>k. c \<notin> set (new_chain_ids k) \<and> (\<forall>r. k \<noteq> PauseThinking c r)) calls"
  with run_calls_completed[OF assms(1)]
  show "\<exists>ch'. chains (run_calls calls s) c = Some ch' \<and> chain_status ch' = chain_completed"
    by blast
qed

theorem chain_status_transitions_witness:
  "map_option chain_status (chains completed_tp uuid_c) = Some chain_completed \<and>
   map_option thoughts (chains completed_tp uuid_c) = Some [uuid_d] \<and>
   map_option chain_status (chains (run_call (PauseThinking uuid_c ''wait'') completed_tp) uuid_c) =
     Some chain_paused \<and>
   map_option chain_status
     (chains (run_call (ResumeThinking uuid_c)
        (run_call (PauseThinking uuid_c ''wait'') completed_tp)) uuid_c) = Some chain_active \<and>
   map_option chain_status
     (chains (run_call (CompleteThoughtProcess uuid_b ''t5'' ''t5'' uuid_c ''again'')
        (run_call (PauseThinking uuid_c ''wait'') completed_tp)) uuid_c) = Some chain_completed \<and>
   map_option chain_status (chains two_chains_tp uuid_e) = Some chain_active \<and>
   map_option chain_status (chains (run_call (PauseThinking uuid_e ''wait'') two_chains_tp) uuid_e) =
     Some chain_paused \<and>
   map_option chain_status
     (chains (run_call (CompleteThoughtProcess uuid_b ''t5'' ''t5'' uuid_e ''done'') two_chains_tp)
        uuid_e) = Some chain_completed \<and>
   list_all (\<lambda>k. uuid_c \<notin> set (new_chain_ids k) \<and> (\<forall>r. k \<noteq> PauseThinking uuid_c r))
     [AddThought uuid_f ''t4'' uuid_e ''more'' analysis None 0.5,
      BranchThought uuid_b uuid_a ''t5'' uuid_d ''what if'' hypothesis 0.6,
      ResumeThinking uuid_c,
      CompleteThoughtProcess uuid_a ''t6'' ''t6'' uuid_c ''again'',
      SwitchCognitiveMode creative (Some uuid_c)] \<and>
   map_option chain_status
     (chains (run_calls
        [AddThought uuid_f ''t4'' uuid_e ''more'' analysis None 0.5,
         BranchThought uuid_b uuid_a ''t5'' uuid_d ''what if'' hypothesis 0.6,
         ResumeThinking uuid_c,
         CompleteThoughtProcess uuid_a ''t6'' ''t6'' uuid_c ''again'',
         SwitchCognitiveMode creative (Some uuid_c)] completed_tp) uuid_c) =
     Some chain_completed \<and>
   map_option thoughts
     (chains (run_call (AddThought uuid_f ''t4'' uuid_e ''more'' analysis None 0.5) completed_tp)
        uuid_e) = Some [uuid_f] \<and>
   map_option branches
     (chains (run_call (BranchThought uuid_b uuid_a ''t5'' uuid_d ''what if'' hypothesis 0.6)
        completed_tp) uuid_c) = Some [uuid_b]"
proof -
  let ?pause = "PauseThinking uuid_c ''wait''"
  let ?calls = "[AddThought uuid_f ''t4'' uuid_e ''more'' analysis None 0.5,
      BranchThought uuid_b uuid_a ''t5'' uuid_d ''what if'' hypothesis 0.6,
      ResumeThinking uuid_c,
      CompleteThoughtProcess uuid_a ''t6'' ''t6'' uuid_c ''again'',
      SwitchCognitiveMode creative (Some uuid_c)]"
  obtain ch where ch: "chains completed_tp uuid_c = Some ch" "chain_status ch = chain_completed"
    "thoughts ch = [uuid_d]"
    by (simp add: completed_tp_def tp_defs)
  obtain ce where ce: "chains two_chains_tp uuid_e = Some ce" "chain_status ce = chain_active"
    by (simp add: tp_defs)
  have l: "list_all (\<lambda>k. uuid_c \<notin> set (new_chain_ids k) \<and> (\<forall>r. k \<noteq> PauseThinking uuid_c r)) ?calls"
    by (simp add: uuid_defs)
  have e: "\<not> is_empty ''again''" "\<not> is_empty ''done''"
    by (simp_all add: str_defs)
  have w: "map_option thoughts
     (chains (run_call (AddThought uuid_f ''t4'' uuid_e ''more'' analysis None 0.5) completed_tp)
        uuid_e) = Some [uuid_f]"
    "map_option branches
     (chains (run_call (BranchThought uuid_b uuid_a ''t5'' uuid_d ''what if'' hypothesis 0.6)
        completed_tp) uuid_c) = Some [uuid_b]"
    by (simp_all add: completed_tp_def tp_defs branchThought_def complete_thought_def Let_def)
  from chain_status_transitions[OF ch(1), of ?pause ?calls] ch(2) l
  obtain cp where cp: "chains (run_call ?pause completed_tp) uuid_c = Some cp"
    "chain_status cp = chain_paused"
    and seq: "map_option chain_status (chains (run_calls ?calls completed_tp) uuid_c) =
      Some chain_completed"
    by auto
  from chain_status_transitions[OF cp(1), of "ResumeThinking uuid_c" "[]"] cp(2)
  have a: "map_option chain_status
     (chains (run_call (ResumeThinking uuid_c) (run_call ?pause completed_tp)) uuid_c) =
     Some chain_active"
    by auto
  from chain_status_transitions
    [OF cp(1), of "CompleteThoughtProcess uuid_b ''t5'' ''t5'' uuid_c ''again''" "[]"] e
  have b: "map_option chain_status
     (chains (run_call (CompleteThoughtProcess uuid_b ''t5'' ''t5'' uuid_c ''again'')
        (run_call ?pause completed_tp)) uuid_c) = Some chain_completed"
    by auto
  from chain_status_transitions[OF ce(1), of "PauseThinking uuid_e ''wait''" "[]"]
  have c: "map_option chain_status
     (chains (run_call (PauseThinking uuid_e ''wait'') two_chains_tp) uuid_e) = Some chain_paused"
    by auto
  from chain_status_transitions
    [OF ce(1), of "CompleteThoughtProcess uuid_b ''t5'' ''t5'' uuid_e ''done''" "[]"] e
  have d: "map_option chain_status
     (chains (run_call (CompleteThoughtProcess uuid_b ''t5'' ''t5'' uuid_e ''done'') two_chains_tp)
        uuid_e) = Some chain_completed"
    by auto
  from ch ce cp a b c d l seq w show ?thesis by simp
qed

text \<open>
  Claim C7 as stated makes completed a terminal status and allows only the changes
  active to completed, active to paused and paused to active. On a tracker whose chain
  \<open>c\<close>, with its thought, is completed, \<open>pauseThinking(c)\<close> leaves it paused and
  \<open>resumeThinking(c)\<close> then leaves it active; and the paused chain \<open>e\<close> is completed by
  \<open>completeThoughtProcess(e)\<close>.
\<close>

theorem completed_chain_reopens:
  "map_option chain_status (chains completed_tp uuid_c) = Some chain_completed \<and>
   map_option thoughts (chains completed_tp uuid_c) = Some [uuid_d] \<and>
   map_option chain_status
     (chains (run_call (PauseThinking uuid_c ''wait'') completed_tp) uuid_c) =
     Some chain_paused \<and>
   map_option chain_status
     (chains (run_call (ResumeThinking uuid_c)
        (run_call (PauseThinking uuid_c ''wait'') completed_tp)) uuid_c) = Some chain_active \<and>
   map_option chain_status
     (chains (run_call (PauseThinking uuid_e ''wait'') two_chains_tp) uuid_e) =
     Some chain_paused \<and>
   map_option chain_status
     (chains (run_call (CompleteThoughtProcess uuid_b ''t5'' ''t5'' uuid_e ''done'')
        (run_call (PauseThinking uuid_e ''wait'') two_chains_tp)) uuid_e) = Some chain_completed"
  by (simp add: completed_tp_def tp_defs pauseThinking_def resumeThinking_def Let_def)

subsection \<open>A parent thought from another chain\<close>

text \<open>
  Claim C10: \<open>addThought\<close> does not check that the parent thought belongs to the target
  chain. For an active chain \<open>c\<close>, an existing thought \<open>p\<close> of another chain, a text that
  is not empty, a confidence between 0 and 1 and a fresh id, the call succeeds, appends
  the new id to the thoughts of \<open>c\<close>, gives the new thought the depth of \<open>p\<close> plus one
  and appends the new id to the next thoughts of \<open>p\<close>.
\<close>

theorem addThought_foreign_parent:
  assumes "chains s c = Some ch" and "chain_status ch = chain_active"
    and "thought_map s p = Some P" and "parent_chain P \<noteq> c" and "p \<noteq> []"
    and "\<not> is_empty text" and "0 \<le> conf" and "conf \<le> 1"
    and "thought_map s uuid = None"
  shows "fst (addThought uuid now c text ty (Some p) conf s) = Inr uuid \<and>
    chains (snd (addThought uuid now c text ty (Some p) conf s)) c =
      Some (ch\<lparr>thoughts := thoughts ch @ [uuid]\<rparr>) \<and>
    (\<exists>n. thought_map (snd (addThought uuid now c text ty (Some p) conf s)) uuid = Some n \<and>
         reasoning_depth n = reasoning_depth P + 1 \<and> previous_thought n = Some p \<and>
         parent_chain n = c) \<and>
    thought_map (snd (addThought uuid now c text ty (Some p) conf s)) p =
      Some (P\<lparr>next_thoughts := next_thoughts P @ [uuid]\<rparr>)"
  using assms by (auto simp: addThought_def Let_def)

theorem addThought_foreign_parent_witness:
  "map_option chain_status (chains two_chains_tp uuid_e) = Some chain_active \<and>
   map_option parent_chain (thought_map two_chains_tp uuid_d) = Some uuid_c \<and>
   uuid_c \<noteq> uuid_e \<and> uuid_d \<noteq> [] \<and> \<not> is_empty ''a follow-up'' \<and>
   thought_map two_chains_tp uuid_f = None \<and>
   fst (addThought uuid_f ''t3'' uuid_e ''a follow-up'' analysis (Some uuid_d) 0.5 two_chains_tp) =
     Inr uuid_f \<and>
   map_option thoughts
     (chains (snd (addThought uuid_f ''t3'' uuid_e ''a follow-up'' analysis (Some uuid_d) 0.5
        two_chains_tp)) uuid_e) = Some [uuid_f] \<and>
   map_option reasoning_depth
     (thought_map (snd (addThought uuid_f ''t3'' uuid_e ''a follow-up'' analysis (Some uuid_d) 0.5
        two_chains_tp)) uuid_f) = Some 1 \<and>
   map_option next_thoughts
     (thought_map (snd (addThought uuid_f ''t3'' uuid_e ''a follow-up'' analysis (Some uuid_d) 0.5
        two_chains_tp)) uuid_d) = Some [uuid_f]"
proof -
  obtain ch where ch: "chains two_chains_tp uuid_e = Some ch" "chain_status ch = chain_active"
    "thoughts ch = []"
    by (simp add: tp_defs)
  obtain P where P: "thought_map two_chains_tp uuid_d = Some P" "parent_chain P = uuid_c"
    "reasoning_depth P = 0" "next_thoughts P = []"
    by (simp add: tp_defs)
  have d: "uuid_c \<noteq> uuid_e" "uuid_d \<noteq> []" "\<not> is_empty ''a follow-up''"
    "thought_map two_chains_tp uuid_f = None"
    by (simp_all add: tp_defs)
  have c: "(0::real) \<le> 0.5" "(0.5::real) \<le> 1"
    by simp_all
  from d(1) P(2) have q: "parent_chain P \<noteq> uuid_e" by simp
  from addThought_foreign_parent[OF ch(1,2) P(1) q d(2,3) c d(4), of "''t3''" analysis]
    ch P d
  show ?thesis by auto
qed

section \<open>Properties of the storage\<close>

text \<open>
  Claim C8: when a lock file exists and is younger than 5 minutes, \<open>save\<close> reports that
  the storage is locked and writes nothing; when the lock file is older than 5 minutes,
  it is removed as stale and the save goes on and succeeds, writing the snapshot to the
  memory file; and on every way out the lock file that this save created is gone. The
  second part supposes that the file system lets the lock and the memory file be written
  and the lock be unlinked, the third that it lets the lock be unlinked.
\<close>

theorem save_lock_protocol:
  "(lock_file fs = Some t \<and> now - t < 5 * 60 * 1000 \<longrightarrow>
      save enableBackup io now now_lock snapshot fs = (Inl StorageLocked, fs)) \<and>
   (lock_file fs = Some t \<and> now - t > 5 * 60 * 1000 \<and>
    \<not> createLock_fails io \<and> \<not> writeFile_fails io \<and> \<not> unlink_fails io \<longrightarrow>
      fst (save enableBackup io now now_lock snapshot fs) = Inr () \<and>
      memory_file (snd (save enableBackup io now now_lock snapshot fs)) = Some snapshot \<and>
      lock_file (snd (save enableBackup io now now_lock snapshot fs)) = None) \<and>
   (\<not> unlink_fails io \<longrightarrow>
      save enableBackup io now now_lock snapshot fs = (Inl StorageLocked, fs) \<or>
      lock_file (snd (save enableBackup io now now_lock snapshot fs)) = None)"
  by (auto simp: save_def isLocked_def createLock_def removeLock_def Let_def
      split: option.splits)

theorem save_lock_protocol_witness:
  "lock_file locked_files = Some 0 \<and> (60000::int) - 0 < 5 * 60 * 1000 \<and>
   save True no_faults 60000 60001 (nodes twice_ltm) locked_files =
     (Inl StorageLocked, locked_files) \<and>
   (360000::int) - 0 > 5 * 60 * 1000 \<and>
   \<not> createLock_fails no_faults \<and> \<not> writeFile_fails no_faults \<and> \<not> unlink_fails no_faults \<and>
   fst (save True no_faults 360000 360001 (nodes twice_ltm) locked_files) = Inr () \<and>
   memory_file (snd (save True no_faults 360000 360001 (nodes twice_ltm) locked_files)) =
     Some (nodes twice_ltm) \<and>
   lock_file (snd (save True no_faults 360000 360001 (nodes twice_ltm) locked_files)) = None"
proof -
  have h: "lock_file locked_files = Some 0" "(60000::int) - 0 < 5 * 60 * 1000"
    "(360000::int) - 0 > 5 * 60 * 1000"
    "\<not> createLock_fails no_faults" "\<not> writeFile_fails no_faults" "\<not> unlink_fails no_faults"
    by (simp_all add: locked_files_def no_faults_def)
  from h save_lock_protocol[of locked_files 0 60000 True no_faults 60001 "nodes twice_ltm"]
    save_lock_protocol[of locked_files 0 360000 True no_faults 360001 "nodes twice_ltm"]
  show ?thesis by blast
qed

text \<open>A failed write of the memory file still ends without the lock file.\<close>

lemma save_write_failure_unlocks:
  "lock_file fs = None \<Longrightarrow> \<not> createLock_fails io \<Longrightarrow> writeFile_fails io \<Longrightarrow>
   \<not> unlink_fails io \<Longrightarrow>
   fst (save enableBackup io now now_lock snapshot fs) = Inl SaveFailed \<and>
   lock_file (snd (save enableBackup io now now_lock snapshot fs)) = None \<and>
   memory_file (snd (save enableBackup io now now_lock snapshot fs)) = memory_file fs"
  by (auto simp: save_def isLocked_def createLock_def removeLock_def Let_def
      split: option.splits)

end
